theory Spec2Isabelle
  imports Complex_Main
begin

section \<open>The outside world\<close>

text \<open>
  The module \<^verbatim>\<open>integration-tests/features/environment.py\<close> talks to three outside
  parties: external commands (\<^verbatim>\<open>subprocess.check_output\<close>), the standard output
  (\<^verbatim>\<open>print\<close>), and HTTP services together with the monotonic clock
  (\<^verbatim>\<open>requests.get\<close>, \<^verbatim>\<open>time.monotonic\<close>). The model threads a \<open>world\<close> record
  through every function: the commands spawned so far, the lines printed so far, the
  URLs requested so far and the number of clock readings taken so far. What the outside
  answers is a parameter of each function: a \<open>backend\<close> maps the history of commands and
  the command to its result, so a theorem that holds for every backend holds however
  the external tool behaves.

  Python names starting with an underscore lose it here (\<^verbatim>\<open>_run_command\<close> is
  \<open>run_command\<close>, \<^verbatim>\<open>_VM_DEFS\<close> is the parameter \<open>vm_defs\<close>).
\<close>

type_synonym call = "string list \<times> string option"
  \<comment> \<open>the argument vector and the working directory (\<open>None\<close>: inherited)\<close>

datatype proc_result =
    Completed string
  | Failed int string string
  \<comment> \<open>exit status 0 with the captured standard output, or \<^verbatim>\<open>CalledProcessError\<close>:
      the non-zero status, the captured standard output and standard error\<close>

type_synonym backend = "call list \<Rightarrow> call \<Rightarrow> proc_result"

record response =
  status_code :: int
  text_body :: string

datatype assertion =
    No_response
  | No_response_within real
  | Original_status int int
  | Redeployed_status int int
  | Same_response string string
  \<comment> \<open>the messages of the \<^verbatim>\<open>AssertionError\<close>s: the two of \<^verbatim>\<open>get_response\<close>, and the
      reasons of the three \<^verbatim>\<open>assert_that\<close> calls with the expected and the actual value\<close>

datatype error =
    ValueError string
  | KeyError string
  | IndexError
  | CalledProcessError int "string list" string string
  | AssertionError assertion

record world =
  calls :: "call list"
  stdout :: "string list"
  requests :: "string list"
  ticks :: nat

definition print :: "string \<Rightarrow> world \<Rightarrow> world" where
  "print l w = w\<lparr>stdout := stdout w @ [l]\<rparr>"

definition check_output :: "backend \<Rightarrow> call \<Rightarrow> world \<Rightarrow> proc_result \<times> world" where
  "check_output be c w = (be (calls w) c, w\<lparr>calls := calls w @ [c]\<rparr>)"

text \<open>
  \<^verbatim>\<open>"{}".format(cmd)\<close> prints the list as Python's \<^verbatim>\<open>repr\<close> does. The commands of
  this module are made of plain words (\<^verbatim>\<open>vagrant\<close>, \<^verbatim>\<open>up\<close>, \<^verbatim>\<open>halt\<close>, \<^verbatim>\<open>destroy\<close>), for
  which the representation is the word between single quotes.
\<close>

fun join :: "string \<Rightarrow> string list \<Rightarrow> string" where
  "join sep [] = []"
| "join sep [x] = x"
| "join sep (x # y # ys) = x @ sep @ join sep (y # ys)"

definition repr_list :: "string list \<Rightarrow> string" where
  "repr_list xs = ''['' @ join '', '' (map (\<lambda>s. [CHR 0x27] @ s @ [CHR 0x27]) xs) @ '']''"

text \<open>
  \<^verbatim>\<open>_run_command(cmd, work_dir, ignore_errors)\<close>: print the command, run it, and on a
  non-zero exit either return the captured output (\<open>ignore_errors\<close>) or print both
  streams and re-raise.
\<close>

definition run_command ::
  "backend \<Rightarrow> string list \<Rightarrow> string \<Rightarrow> bool \<Rightarrow> world \<Rightarrow> (error + string) \<times> world" where
  "run_command be cmd work_dir ignore_errors w =
     (let w1 = print (''  Running '' @ repr_list cmd @ '' in '' @ work_dir) w in
      case check_output be (cmd, Some work_dir) w1 of
        (Completed out, w2) \<Rightarrow> (Inr out, w2)
      | (Failed rc out err, w2) \<Rightarrow>
          if \<not> ignore_errors then
            (Inl (CalledProcessError rc cmd out err),
             print err (print ''=== stderr for failed command ===''
               (print out (print ''=== stdout for failed command ==='' w2))))
          else (Inr out, w2))"

section \<open>Local VM management\<close>

definition VM_HOSTNAME_PREFIX :: string where
  "VM_HOSTNAME_PREFIX = ''leapp-tests-''"

text \<open>
  A callback of the helper's \<^verbatim>\<open>contextlib.ExitStack\<close> is one of the two bound methods
  the module registers, with its argument. The stack is a list whose head is the callback
  registered last, the one \<^verbatim>\<open>close\<close> pops first.
\<close>

datatype vm_callback = Vm_halt string | Vm_destroy string

record VirtualMachineHelper =
  machines :: "string \<rightharpoonup> string"
  resource_manager :: "vm_callback list"

definition VirtualMachineHelper_init :: VirtualMachineHelper where
  "VirtualMachineHelper_init = \<lparr>machines = Map.empty, resource_manager = []\<rparr>"

definition callback :: "vm_callback \<Rightarrow> VirtualMachineHelper \<Rightarrow> VirtualMachineHelper" where
  "callback cb h = h\<lparr>resource_manager := cb # resource_manager h\<rparr>"

definition run_vagrant ::
  "(string \<rightharpoonup> string) \<Rightarrow> backend \<Rightarrow> string \<Rightarrow> string list \<Rightarrow> bool \<Rightarrow> world
     \<Rightarrow> (error + string) \<times> world" where
  "run_vagrant vm_defs be hostname args ignore_errors w =
     (case vm_defs hostname of
        None \<Rightarrow> (Inl (KeyError hostname), w)
      | Some vm_dir \<Rightarrow> run_command be (''vagrant'' # args) vm_dir ignore_errors w)"

definition vm_up ::
  "(string \<rightharpoonup> string) \<Rightarrow> backend \<Rightarrow> string \<Rightarrow> string \<Rightarrow> world \<Rightarrow> VirtualMachineHelper
     \<Rightarrow> (error + string) \<times> world \<times> VirtualMachineHelper" where
  "vm_up vm_defs be name hostname w h =
     (case run_vagrant vm_defs be hostname [''up''] False w of
        (Inl e, w1) \<Rightarrow> (Inl e, w1, h)
      | (Inr result, w1) \<Rightarrow>
          (Inr result,
           print (''Started '' @ hostname @ '' VM instance'') w1,
           h\<lparr>machines := (machines h)(name \<mapsto> hostname)\<rparr>))"

definition vm_halt ::
  "(string \<rightharpoonup> string) \<Rightarrow> backend \<Rightarrow> string \<Rightarrow> world \<Rightarrow> VirtualMachineHelper
     \<Rightarrow> (error + string) \<times> world \<times> VirtualMachineHelper" where
  "vm_halt vm_defs be name w h =
     (case machines h name of
        None \<Rightarrow> (Inl (KeyError name), w, h)
      | Some hostname \<Rightarrow>
          (let h1 = h\<lparr>machines := (machines h)(name := None)\<rparr> in
           case run_vagrant vm_defs be hostname [''halt''] True w of
             (Inl e, w1) \<Rightarrow> (Inl e, w1, h1)
           | (Inr result, w1) \<Rightarrow>
               (Inr result, print (''Suspended '' @ hostname @ '' VM instance'') w1, h1)))"

definition vm_destroy ::
  "(string \<rightharpoonup> string) \<Rightarrow> backend \<Rightarrow> string \<Rightarrow> world \<Rightarrow> VirtualMachineHelper
     \<Rightarrow> (error + string) \<times> world \<times> VirtualMachineHelper" where
  "vm_destroy vm_defs be name w h =
     (case machines h name of
        None \<Rightarrow> (Inl (KeyError name), w, h)
      | Some hostname \<Rightarrow>
          (let h1 = h\<lparr>machines := (machines h)(name := None)\<rparr> in
           case run_vagrant vm_defs be hostname [''destroy''] True w of
             (Inl e, w1) \<Rightarrow> (Inl e, w1, h1)
           | (Inr result, w1) \<Rightarrow>
               (Inr result, print (''Destroyed '' @ hostname @ '' VM instance'') w1, h1)))"

text \<open>
  \<^verbatim>\<open>ensure_local_vm(name, definition, destroy)\<close>. With \<open>destroy\<close> the source calls
  \<^verbatim>\<open>self._vm_destroy(hostname)\<close>: the hostname goes where \<^verbatim>\<open>_vm_destroy\<close> expects the
  name it pops from \<^verbatim>\<open>_machines\<close>.
\<close>

definition ensure_local_vm ::
  "(string \<rightharpoonup> string) \<Rightarrow> backend \<Rightarrow> string \<Rightarrow> string \<Rightarrow> bool \<Rightarrow> world \<Rightarrow> VirtualMachineHelper
     \<Rightarrow> (error + unit) \<times> world \<times> VirtualMachineHelper" where
  "ensure_local_vm vm_defs be name definition destroy w h =
     (let hostname = VM_HOSTNAME_PREFIX @ definition in
      if vm_defs hostname = None then
        (Inl (ValueError (''Unknown VM image: '' @ definition)), w, h)
      else if destroy then
        (case vm_destroy vm_defs be hostname w h of
           (Inl e, w1, h1) \<Rightarrow> (Inl e, w1, h1)
         | (Inr _, w1, h1) \<Rightarrow>
             (case vm_up vm_defs be name hostname w1 h1 of
                (Inl e, w2, h2) \<Rightarrow> (Inl e, w2, h2)
              | (Inr _, w2, h2) \<Rightarrow> (Inr (), w2, callback (Vm_destroy name) h2)))
      else
        (case vm_up vm_defs be name hostname w h of
           (Inl e, w2, h2) \<Rightarrow> (Inl e, w2, h2)
         | (Inr _, w2, h2) \<Rightarrow> (Inr (), w2, callback (Vm_halt name) h2)))"


definition run_vm_callback ::
  "(string \<rightharpoonup> string) \<Rightarrow> backend \<Rightarrow> vm_callback \<Rightarrow> world \<Rightarrow> VirtualMachineHelper
     \<Rightarrow> (error + string) \<times> world \<times> VirtualMachineHelper" where
  "run_vm_callback vm_defs be cb w h =
     (case cb of
        Vm_halt name \<Rightarrow> vm_halt vm_defs be name w h
      | Vm_destroy name \<Rightarrow> vm_destroy vm_defs be name w h)"

text \<open>
  \<^verbatim>\<open>ExitStack.close()\<close> of the Python standard library: while the stack is not empty,
  pop the callback registered last and call it; an exception it raises is kept (it
  replaces an earlier one) and the loop goes on; once the stack is empty the exception
  kept last, if any, is raised. A function registered with \<^verbatim>\<open>callback\<close> never
  suppresses an exception. The first argument of \<open>exit_stack_unwind\<close> is the content
  of the stack, the third the exception pending so far.
\<close>

fun exit_stack_unwind ::
  "(string \<rightharpoonup> string) \<Rightarrow> backend \<Rightarrow> vm_callback list \<Rightarrow> error option \<Rightarrow> world
     \<Rightarrow> VirtualMachineHelper \<Rightarrow> error option \<times> world \<times> VirtualMachineHelper" where
  "exit_stack_unwind vm_defs be [] exc w h = (exc, w, h)"
| "exit_stack_unwind vm_defs be (cb # rest) exc w h =
     (case run_vm_callback vm_defs be cb w (h\<lparr>resource_manager := rest\<rparr>) of
        (Inl e, w1, h1) \<Rightarrow> exit_stack_unwind vm_defs be rest (Some e) w1 h1
      | (Inr _, w1, h1) \<Rightarrow> exit_stack_unwind vm_defs be rest exc w1 h1)"

definition close ::
  "(string \<rightharpoonup> string) \<Rightarrow> backend \<Rightarrow> world \<Rightarrow> VirtualMachineHelper
     \<Rightarrow> error option \<times> world \<times> VirtualMachineHelper" where
  "close vm_defs be w h = exit_stack_unwind vm_defs be (resource_manager h) None w h"

section \<open>Details of a migration\<close>

text \<open>
  A record of the machine listing, as \<^verbatim>\<open>json.loads\<close> delivers it: the value under
  \<^verbatim>\<open>"hostname"\<close> and the list under \<^verbatim>\<open>"ip"\<close>. \<open>first_item\<close> is the subscript
  \<^verbatim>\<open>[0]\<close>, which raises \<^verbatim>\<open>IndexError\<close> on an empty list.
\<close>

record machine =
  hostname :: string
  ip :: "string list"

record MigrationInfo =
  local_vm_count :: nat
  source_ip :: "string option"
  target_ip :: "string option"

definition first_item :: "'a list \<Rightarrow> error + 'a" where
  "first_item xs = (case xs of [] \<Rightarrow> Inl IndexError | x # _ \<Rightarrow> Inr x)"

text \<open>
  The \<^verbatim>\<open>for\<close> loop of \<^verbatim>\<open>from_vm_list\<close>, with the two variables \<^verbatim>\<open>source_ip\<close> and
  \<^verbatim>\<open>target_ip\<close> as accumulators; the \<^verbatim>\<open>break\<close> is the branch that returns without a
  recursive call.
\<close>

fun from_vm_list_loop ::
  "machine list \<Rightarrow> string \<Rightarrow> string \<Rightarrow> string option \<Rightarrow> string option
     \<Rightarrow> error + (string option \<times> string option)" where
  "from_vm_list_loop [] source_host target_host sip tip = Inr (sip, tip)"
| "from_vm_list_loop (m # ms) source_host target_host sip tip =
     (case (if hostname m = source_host then map_sum id Some (first_item (ip m)) else Inr sip) of
        Inl e \<Rightarrow> Inl e
      | Inr sip1 \<Rightarrow>
          (case (if hostname m = target_host then map_sum id Some (first_item (ip m))
                 else Inr tip) of
             Inl e \<Rightarrow> Inl e
           | Inr tip1 \<Rightarrow>
               if sip1 \<noteq> None \<and> tip1 \<noteq> None then Inr (sip1, tip1)
               else from_vm_list_loop ms source_host target_host sip1 tip1))"

definition from_vm_list :: "machine list \<Rightarrow> string \<Rightarrow> string \<Rightarrow> error + MigrationInfo" where
  "from_vm_list ms source_host target_host =
     (let vm_count = length ms in
      case from_vm_list_loop ms source_host target_host None None of
        Inl e \<Rightarrow> Inl e
      | Inr (sip, tip) \<Rightarrow>
          Inr \<lparr>local_vm_count = vm_count, source_ip = sip, target_ip = tip\<rparr>)"

section \<open>Service status checking\<close>

text \<open>
  \<open>http\<close> answers a request from the history of requests and the URL; \<open>None\<close> is any
  exception of \<^verbatim>\<open>requests.get\<close>. \<open>clock\<close> gives the \<open>n\<close>-th reading of
  \<^verbatim>\<open>time.monotonic()\<close>, read as an exact number of seconds.
\<close>

type_synonym http = "string list \<Rightarrow> string \<Rightarrow> response option"

definition requests_get :: "http \<Rightarrow> string \<Rightarrow> world \<Rightarrow> response option \<times> world" where
  "requests_get http url w = (http (requests w) url, w\<lparr>requests := requests w @ [url]\<rparr>)"

definition monotonic :: "(nat \<Rightarrow> real) \<Rightarrow> world \<Rightarrow> real \<times> world" where
  "monotonic clock w = (clock (ticks w), w\<lparr>ticks := Suc (ticks w)\<rparr>)"

text \<open>
  The \<^verbatim>\<open>while True\<close> loop of \<^verbatim>\<open>get_response\<close>. Nothing in the code bounds the number
  of rounds, so the loop lives in the option monad: \<open>None\<close> is a loop that never returns.
\<close>

partial_function (option) get_response_loop ::
  "http \<Rightarrow> (nat \<Rightarrow> real) \<Rightarrow> string \<Rightarrow> assertion \<Rightarrow> real \<Rightarrow> world
     \<Rightarrow> ((error + response) \<times> world) option" where
  "get_response_loop http clock service_url fail_msg deadline w =
     (case requests_get http service_url w of
        (Some r, w1) \<Rightarrow> Some (Inr r, w1)
      | (None, w1) \<Rightarrow>
          (case monotonic clock w1 of
             (now, w2) \<Rightarrow>
               if now \<ge> deadline then Some (Inl (AssertionError fail_msg), w2)
               else get_response_loop http clock service_url fail_msg deadline w2))"

definition get_response ::
  "http \<Rightarrow> (nat \<Rightarrow> real) \<Rightarrow> string \<Rightarrow> real option \<Rightarrow> world
     \<Rightarrow> ((error + response) \<times> world) option" where
  "get_response http clock service_url wait_for_connection w =
     (case monotonic clock w of
        (start, w0) \<Rightarrow>
          (case wait_for_connection of
             None \<Rightarrow> get_response_loop http clock service_url No_response start w0
           | Some t \<Rightarrow>
               get_response_loop http clock service_url (No_response_within t) (start + t) w0))"

text \<open>\<^verbatim>\<open>"{}".format(tcp_port)\<close> for a port number: its decimal digits.\<close>

fun str_nat :: "nat \<Rightarrow> string" where
  "str_nat n =
     (if n < 10 then [''0123456789'' ! n]
      else str_nat (n div 10) @ [''0123456789'' ! (n mod 10)])"

declare str_nat.simps [simp del]

definition format_url :: "string \<Rightarrow> nat \<Rightarrow> string" where
  "format_url address tcp_port = ''http://'' @ address @ '':'' @ str_nat tcp_port"

definition compare_redeployed_response ::
  "http \<Rightarrow> (nat \<Rightarrow> real) \<Rightarrow> string \<Rightarrow> string \<Rightarrow> nat \<Rightarrow> int \<Rightarrow> real option \<Rightarrow> world
     \<Rightarrow> ((error + unit) \<times> world) option" where
  "compare_redeployed_response http clock original_ip redeployed_ip tcp_port status
       wait_for_target w =
     (let original_url = format_url original_ip tcp_port in
      case get_response http clock original_url None w of
        None \<Rightarrow> None
      | Some (Inl e, w1) \<Rightarrow> Some (Inl e, w1)
      | Some (Inr original_response, w1) \<Rightarrow>
          (let w2 = print (''Response received from '' @ original_url) w1;
               original_status = status_code original_response in
           if original_status \<noteq> status then
             Some (Inl (AssertionError (Original_status status original_status)), w2)
           else
             (let redeployed_url = format_url redeployed_ip tcp_port in
              case get_response http clock redeployed_url wait_for_target w2 of
                None \<Rightarrow> None
              | Some (Inl e, w3) \<Rightarrow> Some (Inl e, w3)
              | Some (Inr redeployed_response, w3) \<Rightarrow>
                  (let w4 = print (''Response received from '' @ redeployed_url) w3 in
                   if status_code redeployed_response \<noteq> original_status then
                     Some (Inl (AssertionError
                       (Redeployed_status original_status (status_code redeployed_response))),
                       w4)
                   else if text_body redeployed_response \<noteq> text_body original_response then
                     Some (Inl (AssertionError
                       (Same_response (text_body original_response)
                          (text_body redeployed_response))), w4)
                   else Some (Inr (), w4)))))"

section \<open>Test execution hooks\<close>

text \<open>
  The \<^verbatim>\<open>context\<close> object of the scenario runner holds two exit stacks and the helper
  of the running scenario. The callback \<^verbatim>\<open>vm_helper.close\<close> that \<^verbatim>\<open>before_scenario\<close>
  puts on the global stack and \<^verbatim>\<open>context.vm_helper\<close> are the same object, so helpers
  live in a store and both places hold the address. The hooks run in the runner's order
  (\<^verbatim>\<open>before_all\<close>, then for each scenario \<^verbatim>\<open>before_scenario\<close>, the steps and
  \<^verbatim>\<open>after_scenario\<close>, then \<^verbatim>\<open>after_all\<close>), so every attribute is set before it is read.
\<close>

datatype ctx_callback = Close_vm_helper nat

record runner_context =
  global_cleanup :: "ctx_callback list"
  scenario_cleanup :: "ctx_callback list"
  vm_helper :: nat
  store :: "nat \<Rightarrow> VirtualMachineHelper"
  next_free :: nat



definition before_all ::
  "backend \<Rightarrow> world \<Rightarrow> runner_context \<Rightarrow> error option \<times> world \<times> runner_context" where
  "before_all be w ctx =
     (let cmd = [''sudo'', ''echo'', ''Elevated permissions needed''] in
      case check_output be (cmd, None) w of
        (Failed rc out err, w1) \<Rightarrow> (Some (CalledProcessError rc cmd out err), w1, ctx)
      | (Completed _, w1) \<Rightarrow> (None, w1, ctx\<lparr>global_cleanup := []\<rparr>))"




section \<open>Scenarios\<close>








section \<open>Notions used in the statements\<close>

text \<open>
  Running a list of teardown actions one after the other, each on the state the one
  before left, whatever it returned or raised: what it means for the exit stack to
  execute them in that order.
\<close>

fun run_in_order ::
  "(string \<rightharpoonup> string) \<Rightarrow> backend \<Rightarrow> vm_callback list \<Rightarrow> world \<Rightarrow> VirtualMachineHelper
     \<Rightarrow> world \<times> VirtualMachineHelper" where
  "run_in_order vm_defs be [] w h = (w, h)"
| "run_in_order vm_defs be (cb # cbs) w h =
     (case run_vm_callback vm_defs be cb w h of
        (_, w1, h1) \<Rightarrow> run_in_order vm_defs be cbs w1 h1)"

fun cb_name :: "vm_callback \<Rightarrow> string" where
  "cb_name (Vm_halt name) = name"
| "cb_name (Vm_destroy name) = name"

fun cb_verb :: "vm_callback \<Rightarrow> string" where
  "cb_verb (Vm_halt name) = ''halt''"
| "cb_verb (Vm_destroy name) = ''destroy''"

text \<open>
  The command a teardown action sends for a machine whose name is bound to a known
  hostname: \<^verbatim>\<open>vagrant halt\<close> or \<^verbatim>\<open>vagrant destroy\<close> in the directory of its definition.
\<close>

definition sends ::
  "(string \<rightharpoonup> string) \<Rightarrow> VirtualMachineHelper \<Rightarrow> vm_callback \<Rightarrow> call \<Rightarrow> bool" where
  "sends vm_defs h cb c =
     (case machines h (cb_name cb) of
        None \<Rightarrow> False
      | Some hn \<Rightarrow>
          (case vm_defs hn of
             None \<Rightarrow> False
           | Some vm_dir \<Rightarrow> c = ([''vagrant'', cb_verb cb], Some vm_dir)))"




section \<open>An example environment\<close>

definition example_vm_defs :: "string \<rightharpoonup> string" where
  "example_vm_defs =
     [''leapp-tests-centos6'' \<mapsto> ''/vmdefs/centos6'',
      ''leapp-tests-centos7'' \<mapsto> ''/vmdefs/centos7'']"

definition backend_ok :: backend where
  "backend_ok history c = Completed ''done''"

definition backend_failing :: backend where
  "backend_failing history c = Failed 1 ''done'' ''no such machine''"

definition world_init :: world where
  "world_init = \<lparr>calls = [], stdout = [], requests = [], ticks = 0\<rparr>"

definition example_helper :: VirtualMachineHelper where
  "example_helper =
     \<lparr>machines = [''src'' \<mapsto> ''leapp-tests-centos6'', ''dst'' \<mapsto> ''leapp-tests-centos7''],
      resource_manager = [Vm_destroy ''dst'', Vm_halt ''src'']\<rparr>"



definition example_response :: response where
  "example_response = \<lparr>status_code = 200, text_body = ''hello''\<rparr>"

definition http_down :: http where
  "http_down history url = None"

definition http_up_after :: "nat \<Rightarrow> http" where
  "http_up_after k history url = (if length history < k then None else Some example_response)"

definition http_two_hosts :: http where
  "http_two_hosts history url =
     (if url = ''http://10.0.0.1:80'' then Some example_response
      else Some (example_response\<lparr>text_body := ''bye''\<rparr>))"

definition clock_seconds :: "nat \<Rightarrow> real" where
  "clock_seconds n = real n"

section \<open>The destroy of a stale instance in \<open>ensure_local_vm\<close>\<close>

text \<open>
  C1. The claim: on a fresh helper, \<^verbatim>\<open>ensure_local_vm\<close> with \<open>destroy\<close> for a known
  definition succeeds, and so does a second call with the same name. The code does not:
  \<^verbatim>\<open>_vm_destroy\<close> receives the hostname and pops it from the name map, which is empty
  on a fresh helper, so the first call raises \<^verbatim>\<open>KeyError\<close> before any command is run
  and leaves the helper as it was. The theorem is the result of the call on every fresh
  helper, for every backend.
\<close>

theorem ensure_local_vm_destroy_on_fresh_helper:
  "ensure_local_vm vm_defs be name definition True w VirtualMachineHelper_init =
     ((if vm_defs (VM_HOSTNAME_PREFIX @ definition) = None
       then Inl (ValueError (''Unknown VM image: '' @ definition))
       else Inl (KeyError (VM_HOSTNAME_PREFIX @ definition))),
      w, VirtualMachineHelper_init)"
  by (simp add: ensure_local_vm_def vm_destroy_def VirtualMachineHelper_init_def Let_def)

theorem ensure_local_vm_destroy_on_fresh_helper_witness:
  "ensure_local_vm example_vm_defs backend_ok ''dst'' ''centos7'' True world_init
       VirtualMachineHelper_init =
     (Inl (KeyError ''leapp-tests-centos7''), world_init, VirtualMachineHelper_init)"
  using ensure_local_vm_destroy_on_fresh_helper
    [of example_vm_defs backend_ok "''dst''" "''centos7''" world_init]
  by (simp add: example_vm_defs_def VM_HOSTNAME_PREFIX_def)

section \<open>The exit stack of the helper\<close>

text \<open>The rules that evaluate the model on the example environment.\<close>

lemmas eval_defs = close_def callback_def run_vm_callback_def vm_halt_def vm_destroy_def vm_up_def
  run_vagrant_def run_command_def check_output_def print_def Let_def repr_list_def
  example_vm_defs_def backend_ok_def backend_failing_def world_init_def example_helper_def
  VirtualMachineHelper_init_def


text \<open>
  The two teardown actions never register or remove a callback: what they do does not
  depend on the content of the stack, and they leave it as it is.
\<close>

lemma run_vm_callback_stack:
  "run_vm_callback vm_defs be cb w (h\<lparr>resource_manager := s\<rparr>) =
     (case run_vm_callback vm_defs be cb w h of
        (r, w1, h1) \<Rightarrow> (r, w1, h1\<lparr>resource_manager := s\<rparr>))"
  by (cases cb)
     (simp_all add: run_vm_callback_def vm_halt_def vm_destroy_def Let_def
        split: option.splits prod.splits sum.splits)

lemma run_vm_callback_keeps_stack:
  "run_vm_callback vm_defs be cb w h = (r, w1, h1) \<Longrightarrow> resource_manager h1 = resource_manager h"
  by (cases cb)
     (auto simp add: run_vm_callback_def vm_halt_def vm_destroy_def Let_def
        split: option.splits prod.splits sum.splits)

lemma run_in_order_stack:
  "run_in_order vm_defs be cbs w (h\<lparr>resource_manager := s\<rparr>) =
     (case run_in_order vm_defs be cbs w h of (w1, h1) \<Rightarrow> (w1, h1\<lparr>resource_manager := s\<rparr>))"
  by (induction cbs arbitrary: w h)
     (simp_all add: run_vm_callback_stack split: prod.splits)

lemma run_in_order_keeps_stack:
  "run_in_order vm_defs be cbs w h = (w1, h1) \<Longrightarrow> resource_manager h1 = resource_manager h"
proof (induction cbs arbitrary: w h)
  case Nil
  then show ?case by simp
next
  case (Cons cb cbs)
  then show ?case
    by (auto split: prod.splits dest: run_vm_callback_keeps_stack)
qed

lemma unwind_state:
  "snd (exit_stack_unwind vm_defs be cbs exc w h) =
     (if cbs = [] then (w, h) else run_in_order vm_defs be cbs w (h\<lparr>resource_manager := []\<rparr>))"
proof (induction cbs arbitrary: exc w h)
  case Nil
  then show ?case by simp
next
  case (Cons cb cbs)
  obtain r w1 h1 where r: "run_vm_callback vm_defs be cb w h = (r, w1, h1)"
    by (cases "run_vm_callback vm_defs be cb w h") auto
  show ?case
  proof (cases cbs)
    case Nil
    with r show ?thesis
      by (cases r) (simp_all add: run_vm_callback_stack)
  next
    case (Cons c cs)
    with r Cons.IH show ?thesis
      by (cases r)
         (simp_all add: run_vm_callback_stack run_in_order_stack split: prod.splits)
  qed
qed

lemma resource_manager_fold_callback:
  "resource_manager (fold callback cbs h) = rev cbs @ resource_manager h"
  by (induction cbs arbitrary: h) (simp_all add: callback_def)

lemma fold_callback_stack:
  "(fold callback cbs h)\<lparr>resource_manager := s\<rparr> = h\<lparr>resource_manager := s\<rparr>"
  by (induction cbs arbitrary: h) (simp_all add: callback_def)

lemma close_state:
  "snd (close vm_defs be w h) =
     run_in_order vm_defs be (resource_manager h) w (h\<lparr>resource_manager := []\<rparr>)"
  by (cases "resource_manager h = []") (simp_all add: close_def unwind_state)

lemma close_empty:
  "resource_manager h = [] \<Longrightarrow> close vm_defs be w h = (None, w, h)"
  by (simp add: close_def)


text \<open>
  C3. After any sequence \<open>cbs\<close> of registrations (\<^verbatim>\<open>callback\<close>) on a helper, \<^verbatim>\<open>close\<close>
  executes the registered actions in exactly the reverse order of registration (the
  actions of \<open>cbs\<close> last to first, then what the stack held before), each on the state the
  one before left; it leaves the stack empty, and a second \<^verbatim>\<open>close\<close> executes nothing:
  it returns without an exception and without any change to the world or the helper.
\<close>

theorem close_runs_in_reverse_order:
  "(case close vm_defs be w (fold callback cbs h) of
      (exc, w1, h1) \<Rightarrow>
        (w1, h1) =
          run_in_order vm_defs be (rev cbs @ resource_manager h) w (h\<lparr>resource_manager := []\<rparr>)
        \<and> resource_manager h1 = []
        \<and> close vm_defs be w1 h1 = (None, w1, h1))"
proof -
  obtain exc w1 h1 where c: "close vm_defs be w (fold callback cbs h) = (exc, w1, h1)"
    by (cases "close vm_defs be w (fold callback cbs h)") auto
  have "snd (close vm_defs be w (fold callback cbs h)) =
      run_in_order vm_defs be (rev cbs @ resource_manager h) w (h\<lparr>resource_manager := []\<rparr>)"
    by (simp add: close_state resource_manager_fold_callback fold_callback_stack)
  with c have s: "run_in_order vm_defs be (rev cbs @ resource_manager h) w
      (h\<lparr>resource_manager := []\<rparr>) = (w1, h1)"
    by simp
  then have e: "resource_manager h1 = []"
    by (auto dest: run_in_order_keeps_stack)
  show ?thesis
    unfolding c using s e by (simp add: close_empty)
qed

theorem close_runs_in_reverse_order_witness:
  "(case close example_vm_defs backend_ok world_init
           (fold callback [Vm_halt ''src'', Vm_destroy ''dst'']
              (example_helper\<lparr>resource_manager := []\<rparr>)) of
      (exc, w1, h1) \<Rightarrow>
        (w1, h1) =
          run_in_order example_vm_defs backend_ok [Vm_destroy ''dst'', Vm_halt ''src''] world_init
            (example_helper\<lparr>resource_manager := []\<rparr>)
        \<and> calls w1 =
            [([''vagrant'', ''destroy''], Some ''/vmdefs/centos7''),
             ([''vagrant'', ''halt''], Some ''/vmdefs/centos6'')]
        \<and> close example_vm_defs backend_ok w1 h1 = (None, w1, h1))"
  using close_runs_in_reverse_order
    [where vm_defs = example_vm_defs and be = backend_ok and w = world_init
       and cbs = "[Vm_halt ''src'', Vm_destroy ''dst'']"
       and h = "example_helper\<lparr>resource_manager := []\<rparr>"]
  by (simp add: eval_defs)


section \<open>Failures during teardown\<close>

text \<open>
  A pending exception does not change what the remaining callbacks do; it is the one
  raised at the end unless a later callback raises another.
\<close>

lemma unwind_pending:
  "exit_stack_unwind vm_defs be cbs (Some e) w h =
     (case exit_stack_unwind vm_defs be cbs None w h of
        (None, w1, h1) \<Rightarrow> (Some e, w1, h1)
      | (Some e', w1, h1) \<Rightarrow> (Some e', w1, h1))"
proof (induction cbs arbitrary: e w h)
  case Nil
  then show ?case by simp
next
  case (Cons cb cbs)
  show ?case
    by (simp add: Cons.IH split: prod.splits sum.splits option.splits)
qed

lemma close_step:
  "close vm_defs be w (h\<lparr>resource_manager := cb # rest\<rparr>) =
     (case run_vm_callback vm_defs be cb w (h\<lparr>resource_manager := rest\<rparr>) of
        (r, w1, h1) \<Rightarrow>
          (case close vm_defs be w1 h1 of
             (exc, w2, h2) \<Rightarrow>
               ((case exc of
                   Some e \<Rightarrow> Some e
                 | None \<Rightarrow> (case r of Inl e \<Rightarrow> Some e | Inr _ \<Rightarrow> None)),
                w2, h2)))"
proof -
  obtain r w1 h1 where r: "run_vm_callback vm_defs be cb w (h\<lparr>resource_manager := rest\<rparr>) = (r, w1, h1)"
    by (cases "run_vm_callback vm_defs be cb w (h\<lparr>resource_manager := rest\<rparr>)") auto
  then have "resource_manager h1 = rest"
    by (auto dest: run_vm_callback_keeps_stack)
  with r show ?thesis
    by (cases r) (simp_all add: close_def unwind_pending split: prod.splits option.splits)
qed

lemma vm_halt_ignores_failure:
  assumes "machines h name = Some hn" and "vm_defs hn = Some vm_dir"
  shows "vm_halt vm_defs be name w h =
     (Inr (case be (calls w) ([''vagrant'', ''halt''], Some vm_dir) of
             Completed out \<Rightarrow> out | Failed rc out err \<Rightarrow> out),
      w\<lparr>calls := calls w @ [([''vagrant'', ''halt''], Some vm_dir)],
        stdout := stdout w @
          [''  Running '' @ repr_list [''vagrant'', ''halt''] @ '' in '' @ vm_dir,
           ''Suspended '' @ hn @ '' VM instance'']\<rparr>,
      h\<lparr>machines := (machines h)(name := None)\<rparr>)"
  using assms
  by (simp add: vm_halt_def run_vagrant_def run_command_def check_output_def print_def Let_def
      split: proc_result.splits)

lemma vm_destroy_ignores_failure:
  assumes "machines h name = Some hn" and "vm_defs hn = Some vm_dir"
  shows "vm_destroy vm_defs be name w h =
     (Inr (case be (calls w) ([''vagrant'', ''destroy''], Some vm_dir) of
             Completed out \<Rightarrow> out | Failed rc out err \<Rightarrow> out),
      w\<lparr>calls := calls w @ [([''vagrant'', ''destroy''], Some vm_dir)],
        stdout := stdout w @
          [''  Running '' @ repr_list [''vagrant'', ''destroy''] @ '' in '' @ vm_dir,
           ''Destroyed '' @ hn @ '' VM instance'']\<rparr>,
      h\<lparr>machines := (machines h)(name := None)\<rparr>)"
  using assms
  by (simp add: vm_destroy_def run_vagrant_def run_command_def check_output_def print_def Let_def
      split: proc_result.splits)

lemma run_vm_callback_sends:
  assumes "sends vm_defs h cb c"
  shows "\<exists>out w1. run_vm_callback vm_defs be cb w h =
           (Inr out, w1, h\<lparr>machines := (machines h)(cb_name cb := None)\<rparr>)
         \<and> calls w1 = calls w @ [c]"
proof (cases cb)
  case (Vm_halt name)
  with assms show ?thesis
    by (auto simp add: sends_def run_vm_callback_def vm_halt_ignores_failure
        split: option.splits)
next
  case (Vm_destroy name)
  with assms show ?thesis
    by (auto simp add: sends_def run_vm_callback_def vm_destroy_ignores_failure
        split: option.splits)
qed

lemma sends_cong:
  "machines h1 (cb_name cb) = machines h (cb_name cb) \<Longrightarrow> sends vm_defs h1 cb c = sends vm_defs h cb c"
  by (simp add: sends_def)

lemma unwind_sends:
  assumes "distinct (map cb_name cbs)" and "list_all2 (sends vm_defs h) cbs cs"
  shows "\<exists>w1. exit_stack_unwind vm_defs be cbs exc w h =
           (exc, w1, h\<lparr>machines := (\<lambda>n. if n \<in> cb_name ` set cbs then None else machines h n),
                        resource_manager := (if cbs = [] then resource_manager h else [])\<rparr>)
         \<and> calls w1 = calls w @ cs"
  using assms
proof (induction cbs arbitrary: cs w h)
  case Nil
  then show ?case by simp
next
  case (Cons cb rest)
  from Cons.prems(2) obtain c cs' where cs: "cs = c # cs'"
    and c: "sends vm_defs h cb c" and rest: "list_all2 (sends vm_defs h) rest cs'"
    by (auto simp add: list_all2_Cons1)
  let ?h0 = "h\<lparr>resource_manager := rest\<rparr>"
  from c have "sends vm_defs ?h0 cb c"
    by (simp add: sends_def)
  then obtain out w1 where
    r: "run_vm_callback vm_defs be cb w ?h0 =
          (Inr out, w1, ?h0\<lparr>machines := (machines ?h0)(cb_name cb := None)\<rparr>)"
    and w1: "calls w1 = calls w @ [c]"
    using run_vm_callback_sends [of vm_defs ?h0 cb c be w] by auto
  let ?h1 = "?h0\<lparr>machines := (machines ?h0)(cb_name cb := None)\<rparr>"
  have "list_all2 (sends vm_defs ?h1) rest cs'"
  proof (rule list.rel_mono_strong [OF rest])
    fix x y
    assume x: "x \<in> set rest" and s: "sends vm_defs h x y"
    from x Cons.prems(1) have "cb_name x \<noteq> cb_name cb"
      by (auto simp add: image_iff)
    with s show "sends vm_defs ?h1 x y"
      by (simp add: sends_def)
  qed
  with Cons.prems(1) obtain w2 where
    u: "exit_stack_unwind vm_defs be rest exc w1 ?h1 =
          (exc, w2, ?h1\<lparr>machines := (\<lambda>n. if n \<in> cb_name ` set rest then None else machines ?h1 n),
                        resource_manager := (if rest = [] then resource_manager ?h1 else [])\<rparr>)"
    and w2: "calls w2 = calls w1 @ cs'"
    using Cons.IH [of ?h1 cs' w1] by auto
  have "?h1\<lparr>machines := (\<lambda>n. if n \<in> cb_name ` set rest then None else machines ?h1 n),
            resource_manager := (if rest = [] then resource_manager ?h1 else [])\<rparr> =
        h\<lparr>machines := (\<lambda>n. if n \<in> cb_name ` set (cb # rest) then None else machines h n),
          resource_manager := (if cb # rest = [] then resource_manager h else [])\<rparr>"
    by (auto simp add: fun_eq_iff)
  with r u w1 w2 cs show ?case
    by simp
qed

lemma close_sends:
  assumes "distinct (map cb_name (resource_manager h))"
    and "list_all2 (sends vm_defs h) (resource_manager h) cs"
  shows "\<exists>w1. close vm_defs be w h =
           (None, w1,
            h\<lparr>machines := (\<lambda>n. if n \<in> cb_name ` set (resource_manager h) then None
                                 else machines h n),
              resource_manager := []\<rparr>)
         \<and> calls w1 = calls w @ cs"
  using unwind_sends [OF assms, of be None w]
  by (auto simp add: close_def)



text \<open>
  C4, as the code has it. For every stack of registered teardown actions:
  \<^item> whatever the action on top of the stack does, return or raise, \<^verbatim>\<open>close\<close> goes on
    exactly as a \<^verbatim>\<open>close\<close> of the remaining stack does, so every remaining action is
    still executed; the exception is raised only once the stack is empty, unless a later
    action raised another;
  \<^item> a \<^verbatim>\<open>halt\<close> or \<^verbatim>\<open>destroy\<close> command that exits with a non-zero status raises
    nothing: for a name bound to a known hostname, \<^verbatim>\<open>_vm_halt\<close> and \<^verbatim>\<open>_vm_destroy\<close>
    return the output of the command whatever the backend answers, and print the same
    two lines in both cases, the command before it runs and \<^verbatim>\<open>Suspended\<close> or
    \<^verbatim>\<open>Destroyed\<close> after it; nothing about the failure is printed;
  \<^item> so when the names on the stack are distinct and bound to known hostnames,
    \<^verbatim>\<open>close\<close> raises nothing for any backend, and sends one command for each action,
    the action registered last first.
\<close>

theorem teardown_failures_are_not_raised:
  "close vm_defs be w (h\<lparr>resource_manager := cb # rest\<rparr>) =
     (case run_vm_callback vm_defs be cb w (h\<lparr>resource_manager := rest\<rparr>) of
        (r, w1, h1) \<Rightarrow>
          (case close vm_defs be w1 h1 of
             (exc, w2, h2) \<Rightarrow>
               ((case exc of
                   Some e \<Rightarrow> Some e
                 | None \<Rightarrow> (case r of Inl e \<Rightarrow> Some e | Inr _ \<Rightarrow> None)),
                w2, h2)))
   \<and> (machines h name = Some hn \<longrightarrow> vm_defs hn = Some vm_dir \<longrightarrow>
        vm_halt vm_defs be name w h =
          (Inr (case be (calls w) ([''vagrant'', ''halt''], Some vm_dir) of
                  Completed out \<Rightarrow> out | Failed rc out err \<Rightarrow> out),
           w\<lparr>calls := calls w @ [([''vagrant'', ''halt''], Some vm_dir)],
             stdout := stdout w @
               [''  Running '' @ repr_list [''vagrant'', ''halt''] @ '' in '' @ vm_dir,
                ''Suspended '' @ hn @ '' VM instance'']\<rparr>,
           h\<lparr>machines := (machines h)(name := None)\<rparr>)
        \<and> vm_destroy vm_defs be name w h =
          (Inr (case be (calls w) ([''vagrant'', ''destroy''], Some vm_dir) of
                  Completed out \<Rightarrow> out | Failed rc out err \<Rightarrow> out),
           w\<lparr>calls := calls w @ [([''vagrant'', ''destroy''], Some vm_dir)],
             stdout := stdout w @
               [''  Running '' @ repr_list [''vagrant'', ''destroy''] @ '' in '' @ vm_dir,
                ''Destroyed '' @ hn @ '' VM instance'']\<rparr>,
           h\<lparr>machines := (machines h)(name := None)\<rparr>))
   \<and> (distinct (map cb_name (resource_manager h)) \<longrightarrow>
        list_all2 (sends vm_defs h) (resource_manager h) cs \<longrightarrow>
        (\<exists>w1. close vm_defs be w h =
                (None, w1,
                 h\<lparr>machines := (\<lambda>n. if n \<in> cb_name ` set (resource_manager h) then None
                                      else machines h n),
                   resource_manager := []\<rparr>)
              \<and> calls w1 = calls w @ cs))"
proof (intro conjI impI)
  show "close vm_defs be w (h\<lparr>resource_manager := cb # rest\<rparr>) =
     (case run_vm_callback vm_defs be cb w (h\<lparr>resource_manager := rest\<rparr>) of
        (r, w1, h1) \<Rightarrow>
          (case close vm_defs be w1 h1 of
             (exc, w2, h2) \<Rightarrow>
               ((case exc of
                   Some e \<Rightarrow> Some e
                 | None \<Rightarrow> (case r of Inl e \<Rightarrow> Some e | Inr _ \<Rightarrow> None)),
                w2, h2)))"
    by (rule close_step)
qed (simp_all add: vm_halt_ignores_failure vm_destroy_ignores_failure close_sends)

theorem teardown_failures_are_not_raised_witness:
  "fst (close example_vm_defs backend_failing world_init example_helper) = None
   \<and> calls (fst (snd (close example_vm_defs backend_failing world_init example_helper))) =
       [([''vagrant'', ''destroy''], Some ''/vmdefs/centos7''),
        ([''vagrant'', ''halt''], Some ''/vmdefs/centos6'')]
   \<and> vm_halt example_vm_defs backend_failing ''src'' world_init example_helper =
       (Inr ''done'',
        world_init\<lparr>calls := [([''vagrant'', ''halt''], Some ''/vmdefs/centos6'')],
          stdout := [''  Running ['vagrant', 'halt'] in /vmdefs/centos6'',
                     ''Suspended leapp-tests-centos6 VM instance'']\<rparr>,
        example_helper\<lparr>machines := [''dst'' \<mapsto> ''leapp-tests-centos7'']\<rparr>)"
  using teardown_failures_are_not_raised
    [where vm_defs = example_vm_defs and be = backend_failing and w = world_init
       and h = example_helper and name = "''src''" and hn = "''leapp-tests-centos6''"
       and vm_dir = "''/vmdefs/centos6''"
       and cs = "[([''vagrant'', ''destroy''], Some ''/vmdefs/centos7''),
                  ([''vagrant'', ''halt''], Some ''/vmdefs/centos6'')]"]
  by (auto simp add: eval_defs sends_def fun_eq_iff)

text \<open>
  C4 as stated says that the failure of a teardown command is logged. It is not: with a
  backend whose every command fails, \<^verbatim>\<open>_vm_halt\<close> returns normally and the lines on the
  standard output are those of a successful halt.
\<close>

theorem failed_halt_is_not_logged:
  "fst (vm_halt example_vm_defs backend_failing ''src'' world_init example_helper) = Inr ''done''
   \<and> stdout (fst (snd (vm_halt example_vm_defs backend_failing ''src'' world_init example_helper))) =
       [''  Running ['vagrant', 'halt'] in /vmdefs/centos6'',
        ''Suspended leapp-tests-centos6 VM instance'']
   \<and> stdout (fst (snd (vm_halt example_vm_defs backend_failing ''src'' world_init example_helper))) =
       stdout (fst (snd (vm_halt example_vm_defs backend_ok ''src'' world_init example_helper)))"
  by (simp add: eval_defs)


section \<open>The name map and the registered teardown actions\<close>























section \<open>The end of a scenario\<close>





















section \<open>The result of a migration\<close>

lemma loop_target_absent:
  assumes "\<forall>m \<in> set ms. hostname m \<noteq> t"
    and "\<forall>m \<in> set ms. hostname m = s \<longrightarrow> ip m \<noteq> []"
  shows "from_vm_list_loop ms s t sip None =
     Inr (case filter (\<lambda>m. hostname m = s) ms of
            [] \<Rightarrow> sip
          | x # xs \<Rightarrow> Some (hd (ip (last (x # xs)))), None)"
  using assms
proof (induction ms arbitrary: sip)
  case Nil
  then show ?case by simp
next
  case (Cons m ms)
  show ?case
  proof (cases "hostname m = s")
    case True
    with Cons.prems obtain a as where a: "ip m = a # as"
      by (cases "ip m") auto
    from Cons.prems have "from_vm_list_loop ms s t (Some a) None =
        Inr (case filter (\<lambda>m. hostname m = s) ms of
               [] \<Rightarrow> Some a
             | x # xs \<Rightarrow> Some (hd (ip (last (x # xs)))), None)"
      by (intro Cons.IH) auto
    with True a Cons.prems show ?thesis
      by (auto simp add: first_item_def split: list.splits)
  next
    case False
    from Cons.prems have "from_vm_list_loop ms s t sip None =
        Inr (case filter (\<lambda>m. hostname m = s) ms of
               [] \<Rightarrow> sip
             | x # xs \<Rightarrow> Some (hd (ip (last (x # xs)))), None)"
      by (intro Cons.IH) auto
    with False Cons.prems show ?thesis
      by auto
  qed
qed


lemma loop_target_absent_fails:
  assumes "\<forall>m \<in> set ms. hostname m \<noteq> t"
    and "\<exists>m \<in> set ms. hostname m = s \<and> ip m = []"
  shows "from_vm_list_loop ms s t sip None = Inl IndexError"
  using assms
proof (induction ms arbitrary: sip)
  case Nil
  then show ?case by simp
next
  case (Cons m ms)
  show ?case
  proof (cases "hostname m = s \<and> ip m = []")
    case True
    then show ?thesis
      by (simp add: first_item_def)
  next
    case False
    with Cons.prems have "\<And>sip. from_vm_list_loop ms s t sip None = Inl IndexError"
      by (intro Cons.IH) auto
    with False Cons.prems show ?thesis
      by (cases "ip m") (auto simp add: first_item_def)
  qed
qed

text \<open>
  C6, as the code has it. On the listing of two machines \<open>a\<close> with address \<open>1.1.1.1\<close>
  and \<open>b\<close> with address \<open>2.2.2.2\<close>, with source \<open>a\<close> and target \<open>b\<close>,
  \<^verbatim>\<open>from_vm_list\<close> yields the count 2 and the two addresses. On a listing in which no
  record has the hostname of the target, the scan goes through the whole listing once;
  when every record of the source has an address, it returns without failing: the target
  address is absent, the count is the number of records whether they match or not, and
  the source address is the first address of the matching record, the last one if
  several match. When a record of the source has an empty address list, it fails with
  \<^verbatim>\<open>IndexError\<close>.
\<close>

theorem from_vm_list_target_absent:
  "from_vm_list
     [\<lparr>hostname = ''a'', ip = [''1.1.1.1'']\<rparr>, \<lparr>hostname = ''b'', ip = [''2.2.2.2'']\<rparr>] ''a'' ''b'' =
     Inr \<lparr>local_vm_count = 2, source_ip = Some ''1.1.1.1'', target_ip = Some ''2.2.2.2''\<rparr>
   \<and> ((\<forall>m \<in> set ms. hostname m \<noteq> t) \<longrightarrow>
        (\<forall>m \<in> set ms. hostname m = s \<longrightarrow> ip m \<noteq> []) \<longrightarrow>
        from_vm_list ms s t =
          Inr \<lparr>local_vm_count = length ms,
               source_ip =
                 (case filter (\<lambda>m. hostname m = s) ms of
                    [] \<Rightarrow> None
                  | x # xs \<Rightarrow> Some (hd (ip (last (x # xs))))),
               target_ip = None\<rparr>)
   \<and> ((\<forall>m \<in> set ms. hostname m \<noteq> t) \<longrightarrow>
        (\<exists>m \<in> set ms. hostname m = s \<and> ip m = []) \<longrightarrow>
        from_vm_list ms s t = Inl IndexError)"
  by (simp add: from_vm_list_def first_item_def loop_target_absent loop_target_absent_fails)

theorem from_vm_list_target_absent_witness:
  "from_vm_list
     [\<lparr>hostname = ''a'', ip = [''1.1.1.1'', ''10.0.0.1'']\<rparr>, \<lparr>hostname = ''c'', ip = []\<rparr>] ''a'' ''b'' =
     Inr \<lparr>local_vm_count = 2, source_ip = Some ''1.1.1.1'', target_ip = None\<rparr>
   \<and> from_vm_list
     [\<lparr>hostname = ''c'', ip = [''3.3.3.3'']\<rparr>, \<lparr>hostname = ''a'', ip = []\<rparr>] ''a'' ''b'' =
     Inl IndexError"
  using from_vm_list_target_absent
    [where ms = "[\<lparr>hostname = ''a'', ip = [''1.1.1.1'', ''10.0.0.1'']\<rparr>, \<lparr>hostname = ''c'', ip = []\<rparr>]"
       and s = "''a''" and t = "''b''"]
    from_vm_list_target_absent
    [where ms = "[\<lparr>hostname = ''c'', ip = [''3.3.3.3'']\<rparr>, \<lparr>hostname = ''a'', ip = []\<rparr>]"
       and s = "''a''" and t = "''b''"]
  by simp

text \<open>
  C6 as stated says that every listing without the target yields a result without
  failing. A listing whose only record is the source with an empty address list has no
  record of the target, and the subscript raises.
\<close>

theorem from_vm_list_target_absent_source_without_address:
  "from_vm_list [\<lparr>hostname = ''a'', ip = []\<rparr>] ''a'' ''b'' = Inl IndexError"
  by (simp add: from_vm_list_def first_item_def)

lemma loop_all_nonempty:
  assumes "\<forall>m \<in> set ms. ip m \<noteq> []"
  shows "\<exists>a b. from_vm_list_loop ms s t sip tip = Inr (a, b)"
  using assms
proof (induction ms arbitrary: sip tip)
  case Nil
  then show ?case by simp
next
  case (Cons m ms)
  then obtain a as where a: "ip m = a # as"
    by (cases "ip m") auto
  from Cons.prems have "\<And>sip tip. \<exists>a b. from_vm_list_loop ms s t sip tip = Inr (a, b)"
    by (intro Cons.IH) auto
  with a show ?case
    by (auto simp add: first_item_def)
qed

lemma loop_append:
  assumes "sip = None \<or> tip = None"
  shows "from_vm_list_loop (pre @ rest) s t sip tip =
     (case from_vm_list_loop pre s t sip tip of
        Inl e \<Rightarrow> Inl e
      | Inr (a, b) \<Rightarrow>
          if a \<noteq> None \<and> b \<noteq> None then Inr (a, b) else from_vm_list_loop rest s t a b)"
  using assms
proof (induction pre arbitrary: sip tip s t)
  case Nil
  then show ?case by auto
next
  case (Cons m pre)
  then show ?case
    by (cases "ip m") (auto simp add: first_item_def)
qed


text \<open>
  C10, as the code has it. On every listing whose records all have a non-empty address
  list the subscript \<^verbatim>\<open>[0]\<close> is in bounds and \<^verbatim>\<open>from_vm_list\<close> returns a result, with
  the count of the records. A record with the hostname of the source or of the target
  and an empty address list makes the operation fail with \<^verbatim>\<open>IndexError\<close> as soon as the
  scan reaches it, that is whenever the records before it (on which the operation
  returns) have not provided both addresses.
\<close>

theorem from_vm_list_first_address:
  "((\<forall>m \<in> set ms. ip m \<noteq> []) \<longrightarrow>
      (\<exists>r. from_vm_list ms s t = Inr r \<and> local_vm_count r = length ms))
   \<and> (from_vm_list pre s t = Inr r \<longrightarrow> source_ip r = None \<or> target_ip r = None \<longrightarrow>
        hostname m = s \<or> hostname m = t \<longrightarrow> ip m = [] \<longrightarrow>
        from_vm_list (pre @ m # post) s t = Inl IndexError)"
proof (intro conjI impI)
  assume "\<forall>m \<in> set ms. ip m \<noteq> []"
  from loop_all_nonempty [OF this, of s t None None]
  show "\<exists>r. from_vm_list ms s t = Inr r \<and> local_vm_count r = length ms"
    by (auto simp add: from_vm_list_def)
next
  assume pre: "from_vm_list pre s t = Inr r"
    and open_: "source_ip r = None \<or> target_ip r = None"
    and m: "hostname m = s \<or> hostname m = t" "ip m = []"
  from pre have l: "from_vm_list_loop pre s t None None = Inr (source_ip r, target_ip r)"
    by (auto simp add: from_vm_list_def split: sum.splits)
  have "from_vm_list_loop (pre @ m # post) s t None None = Inl IndexError"
    using l open_ m by (auto simp add: loop_append first_item_def)
  then show "from_vm_list (pre @ m # post) s t = Inl IndexError"
    by (simp add: from_vm_list_def)
qed

theorem from_vm_list_first_address_witness:
  "from_vm_list
      [\<lparr>hostname = ''a'', ip = [''1.1.1.1'']\<rparr>, \<lparr>hostname = ''c'', ip = [''3.3.3.3'']\<rparr>] ''a'' ''b'' =
      Inr \<lparr>local_vm_count = 2, source_ip = Some ''1.1.1.1'', target_ip = None\<rparr>
   \<and> from_vm_list
        ([\<lparr>hostname = ''a'', ip = [''1.1.1.1'']\<rparr>] @ \<lparr>hostname = ''b'', ip = []\<rparr> # []) ''a'' ''b'' =
      Inl IndexError"
proof -
  have nonempty: "\<forall>m \<in> set [\<lparr>hostname = ''a'', ip = [''1.1.1.1'']\<rparr>,
      \<lparr>hostname = ''c'', ip = [''3.3.3.3'']\<rparr>]. ip m \<noteq> []"
    by simp
  have pre: "from_vm_list [\<lparr>hostname = ''a'', ip = [''1.1.1.1'']\<rparr>] ''a'' ''b'' =
      Inr \<lparr>local_vm_count = 1, source_ip = Some ''1.1.1.1'', target_ip = None\<rparr>"
    by (simp add: from_vm_list_def first_item_def)
  note facts = from_vm_list_first_address
    [where ms = "[\<lparr>hostname = ''a'', ip = [''1.1.1.1'']\<rparr>, \<lparr>hostname = ''c'', ip = [''3.3.3.3'']\<rparr>]"
       and s = "''a''" and t = "''b''" and pre = "[\<lparr>hostname = ''a'', ip = [''1.1.1.1'']\<rparr>]"
       and r = "\<lparr>local_vm_count = 1, source_ip = Some ''1.1.1.1'', target_ip = None\<rparr>"
       and m = "\<lparr>hostname = ''b'', ip = []\<rparr>" and post = "[]"]
  from facts nonempty pre show ?thesis
    by (simp add: from_vm_list_def first_item_def)
qed

text \<open>
  C10 as stated says that a matching record with an empty address list gives an absent
  address. The subscript raises instead.
\<close>

theorem from_vm_list_empty_address_list:
  "from_vm_list [\<lparr>hostname = ''a'', ip = []\<rparr>, \<lparr>hostname = ''b'', ip = [''2.2.2.2'']\<rparr>] ''a'' ''b'' =
     Inl IndexError"
  by (simp add: from_vm_list_def first_item_def)


section \<open>Waiting for a response\<close>

text \<open>One round of the loop of \<^verbatim>\<open>get_response\<close>, and \<open>k\<close> rounds that fail before the deadline.\<close>

lemma loop_answer:
  "http (requests w) url = Some r \<Longrightarrow>
     get_response_loop http clock url msg deadline w =
       Some (Inr r, w\<lparr>requests := requests w @ [url]\<rparr>)"
  by (subst get_response_loop.simps) (simp add: requests_get_def)

lemma loop_retry:
  "http (requests w) url = None \<Longrightarrow> clock (ticks w) < deadline \<Longrightarrow>
     get_response_loop http clock url msg deadline w =
       get_response_loop http clock url msg deadline
         (w\<lparr>requests := requests w @ [url], ticks := Suc (ticks w)\<rparr>)"
  by (subst get_response_loop.simps) (simp add: requests_get_def monotonic_def)

lemma loop_give_up:
  "http (requests w) url = None \<Longrightarrow> deadline \<le> clock (ticks w) \<Longrightarrow>
     get_response_loop http clock url msg deadline w =
       Some (Inl (AssertionError msg),
             w\<lparr>requests := requests w @ [url], ticks := Suc (ticks w)\<rparr>)"
  by (subst get_response_loop.simps) (simp add: requests_get_def monotonic_def)

lemma loop_retries:
  assumes "\<forall>j<k. http (requests w @ replicate j url) url = None \<and> clock (ticks w + j) < deadline"
  shows "get_response_loop http clock url msg deadline w =
     get_response_loop http clock url msg deadline
       (w\<lparr>requests := requests w @ replicate k url, ticks := ticks w + k\<rparr>)"
  using assms
proof (induction k)
  case 0
  then show ?case by simp
next
  case (Suc k)
  let ?w = "w\<lparr>requests := requests w @ replicate k url, ticks := ticks w + k\<rparr>"
  from Suc.prems have "get_response_loop http clock url msg deadline w =
      get_response_loop http clock url msg deadline ?w"
    by (intro Suc.IH) auto
  also from Suc.prems have "\<dots> = get_response_loop http clock url msg deadline
      (?w\<lparr>requests := requests ?w @ [url], ticks := Suc (ticks ?w)\<rparr>)"
    by (intro loop_retry) auto
  also have "?w\<lparr>requests := requests ?w @ [url], ticks := Suc (ticks ?w)\<rparr> =
      w\<lparr>requests := requests w @ replicate (Suc k) url, ticks := ticks w + Suc k\<rparr>"
    by (simp add: replicate_append_same)
  finally show ?case .
qed


text \<open>
  C7. \<^verbatim>\<open>get_response(url, t)\<close> reads the clock once (the start; the deadline is the
  start plus \<open>t\<close>) and then requests the URL again and again. When the first \<open>k\<close>
  requests fail, each followed by a reading of the clock before the deadline, then
  \<^item> if the next request is answered, that first response is returned (after exactly
    \<open>k + 1\<close> requests);
  \<^item> if the next request fails as well and the clock then reads the deadline or more,
    the call fails with "No response from service within \<open>t\<close> seconds", after exactly
    \<open>k + 1\<close> requests: not before a reading of the clock has reached the deadline, and
    with no request after that reading.
  In both cases the call returns.
\<close>

theorem get_response_with_wait:
  assumes "\<forall>j<k. http (requests w @ replicate j url) url = None
             \<and> clock (Suc (ticks w + j)) < clock (ticks w) + t"
  shows "(http (requests w @ replicate k url) url = Some r \<longrightarrow>
            get_response http clock url (Some t) w =
              Some (Inr r,
                    w\<lparr>requests := requests w @ replicate (Suc k) url,
                      ticks := Suc (ticks w + k)\<rparr>))
     \<and> (http (requests w @ replicate k url) url = None \<longrightarrow>
          clock (ticks w) + t \<le> clock (Suc (ticks w + k)) \<longrightarrow>
            get_response http clock url (Some t) w =
              Some (Inl (AssertionError (No_response_within t)),
                    w\<lparr>requests := requests w @ replicate (Suc k) url,
                      ticks := Suc (Suc (ticks w + k))\<rparr>))"
proof -
  let ?w0 = "w\<lparr>ticks := Suc (ticks w)\<rparr>"
  let ?wk = "?w0\<lparr>requests := requests ?w0 @ replicate k url, ticks := ticks ?w0 + k\<rparr>"
  let ?d = "clock (ticks w) + t"
  have start: "get_response http clock url (Some t) w =
      get_response_loop http clock url (No_response_within t) ?d ?w0"
    by (simp add: get_response_def monotonic_def)
  from assms have "get_response_loop http clock url (No_response_within t) ?d ?w0 =
      get_response_loop http clock url (No_response_within t) ?d ?wk"
    by (intro loop_retries) simp
  with start have rounds: "get_response http clock url (Some t) w =
      get_response_loop http clock url (No_response_within t) ?d ?wk"
    by simp
  show ?thesis
  proof (intro conjI impI)
    assume "http (requests w @ replicate k url) url = Some r"
    then have "get_response_loop http clock url (No_response_within t) ?d ?wk =
        Some (Inr r, ?wk\<lparr>requests := requests ?wk @ [url]\<rparr>)"
      by (intro loop_answer) simp
    with rounds show "get_response http clock url (Some t) w =
        Some (Inr r,
              w\<lparr>requests := requests w @ replicate (Suc k) url, ticks := Suc (ticks w + k)\<rparr>)"
      by (simp add: replicate_append_same)
  next
    assume "http (requests w @ replicate k url) url = None"
      and "clock (ticks w) + t \<le> clock (Suc (ticks w + k))"
    then have "get_response_loop http clock url (No_response_within t) ?d ?wk =
        Some (Inl (AssertionError (No_response_within t)),
              ?wk\<lparr>requests := requests ?wk @ [url], ticks := Suc (ticks ?wk)\<rparr>)"
      by (intro loop_give_up) simp_all
    with rounds show "get_response http clock url (Some t) w =
        Some (Inl (AssertionError (No_response_within t)),
              w\<lparr>requests := requests w @ replicate (Suc k) url,
                ticks := Suc (Suc (ticks w + k))\<rparr>)"
      by (simp add: replicate_append_same)
  qed
qed

theorem get_response_with_wait_witness:
  "get_response (http_up_after 2) clock_seconds ''http://10.0.0.2:80'' (Some 10) world_init =
     Some (Inr example_response,
           world_init\<lparr>requests :=
               [''http://10.0.0.2:80'', ''http://10.0.0.2:80'', ''http://10.0.0.2:80''],
             ticks := 3\<rparr>)
   \<and> get_response http_down clock_seconds ''http://10.0.0.2:80'' (Some 2) world_init =
     Some (Inl (AssertionError (No_response_within 2)),
           world_init\<lparr>requests := [''http://10.0.0.2:80'', ''http://10.0.0.2:80''],
             ticks := 3\<rparr>)"
proof -
  let ?url = "''http://10.0.0.2:80''"
  have down_twice: "\<forall>j<2. http_up_after 2 (requests world_init @ replicate j ?url) ?url = None
      \<and> clock_seconds (Suc (ticks world_init + j)) < clock_seconds (ticks world_init) + 10"
    by (auto simp add: http_up_after_def clock_seconds_def world_init_def)
  have up: "http_up_after 2 (requests world_init @ replicate 2 ?url) ?url = Some example_response"
    by (simp add: http_up_after_def world_init_def)
  have down_once: "\<forall>j<1. http_down (requests world_init @ replicate j ?url) ?url = None
      \<and> clock_seconds (Suc (ticks world_init + j)) < clock_seconds (ticks world_init) + 2"
    by (simp add: http_down_def clock_seconds_def world_init_def)
  have down: "http_down (requests world_init @ replicate 1 ?url) ?url = None"
    by (simp add: http_down_def)
  have late: "clock_seconds (ticks world_init) + 2 \<le> clock_seconds (Suc (ticks world_init + 1))"
    by (simp add: clock_seconds_def world_init_def)
  note answered = get_response_with_wait
    [where http = "http_up_after 2" and clock = clock_seconds and w = world_init and url = ?url
       and k = 2 and t = 10 and r = example_response, OF down_twice]
  note timed_out = get_response_with_wait
    [where http = http_down and clock = clock_seconds and w = world_init and url = ?url
       and k = 1 and t = 2 and r = example_response, OF down_once]
  from answered up timed_out down late
  show ?thesis
    by (simp add: world_init_def eval_nat_numeral)
qed

text \<open>
  C8. \<^verbatim>\<open>get_response(url, None)\<close> makes exactly one request: it returns the response
  if the request is answered, and fails with "No response from service" if it is not,
  without a second request; the deadline is the start, which a second reading of a
  monotonic clock has always reached.
\<close>

theorem get_response_without_wait:
  "(http (requests w) url = Some r \<longrightarrow>
      get_response http clock url None w =
        Some (Inr r, w\<lparr>requests := requests w @ [url], ticks := Suc (ticks w)\<rparr>))
   \<and> (http (requests w) url = None \<longrightarrow> mono clock \<longrightarrow>
        get_response http clock url None w =
          Some (Inl (AssertionError No_response),
                w\<lparr>requests := requests w @ [url], ticks := Suc (Suc (ticks w))\<rparr>))"
proof (intro conjI impI)
  let ?w0 = "w\<lparr>ticks := Suc (ticks w)\<rparr>"
  have start: "get_response http clock url None w =
      get_response_loop http clock url No_response (clock (ticks w)) ?w0"
    by (simp add: get_response_def monotonic_def)
  {
    assume "http (requests w) url = Some r"
    then have "get_response_loop http clock url No_response (clock (ticks w)) ?w0 =
        Some (Inr r, ?w0\<lparr>requests := requests ?w0 @ [url]\<rparr>)"
      by (intro loop_answer) simp
    with start show "get_response http clock url None w =
        Some (Inr r, w\<lparr>requests := requests w @ [url], ticks := Suc (ticks w)\<rparr>)"
      by simp
  }
  {
    assume "http (requests w) url = None" and "mono clock"
    then have "get_response_loop http clock url No_response (clock (ticks w)) ?w0 =
        Some (Inl (AssertionError No_response),
              ?w0\<lparr>requests := requests ?w0 @ [url], ticks := Suc (ticks ?w0)\<rparr>)"
      by (intro loop_give_up) (simp_all add: monoD)
    with start show "get_response http clock url None w =
        Some (Inl (AssertionError No_response),
              w\<lparr>requests := requests w @ [url], ticks := Suc (Suc (ticks w))\<rparr>)"
      by simp
  }
qed


theorem get_response_without_wait_witness:
  "get_response (http_up_after 0) clock_seconds ''http://10.0.0.1:80'' None world_init =
     Some (Inr example_response,
           world_init\<lparr>requests := [''http://10.0.0.1:80''], ticks := 1\<rparr>)
   \<and> get_response http_down clock_seconds ''http://10.0.0.1:80'' None world_init =
     Some (Inl (AssertionError No_response),
           world_init\<lparr>requests := [''http://10.0.0.1:80''], ticks := 2\<rparr>)"
proof -
  let ?url = "''http://10.0.0.1:80''"
  have up: "http_up_after 0 (requests world_init) ?url = Some example_response"
    by (simp add: http_up_after_def)
  have down: "http_down (requests world_init) ?url = None"
    by (simp add: http_down_def)
  have clock: "mono clock_seconds"
    by (simp add: mono_def clock_seconds_def)
  from get_response_without_wait
      [where http = "http_up_after 0" and w = world_init and url = ?url
         and r = example_response and clock = clock_seconds] up
    get_response_without_wait
      [where http = http_down and w = world_init and url = ?url and clock = clock_seconds]
    down clock
  show ?thesis
    by (simp add: world_init_def eval_nat_numeral)
qed

section \<open>Comparing the responses\<close>

text \<open>
  C9. \<^verbatim>\<open>compare_redeployed_response\<close> checks, in this order and stopping at the first
  failure: the response of the original address (requested without wait), its status
  against the expected one, the response of the redeployed address (requested with the
  wait), the status of the redeployed response against the status of the original one,
  and the two bodies. So when both addresses answer, the original status is the expected
  one, the two statuses are equal and the bodies are equal, the comparison succeeds; when
  only the bodies differ it fails with the assertion on the bodies ("Same response"), not
  with the one on the statuses ("Redeployed status"); a status that differs is reported
  whatever the bodies are; and a failure of the original side leaves the redeployed
  address unrequested.
\<close>

theorem compare_redeployed_response_order:
  "(get_response http clock (format_url original_ip tcp_port) None w = Some (Inl e, w1) \<longrightarrow>
      compare_redeployed_response http clock original_ip redeployed_ip tcp_port status wait w =
        Some (Inl e, w1))
   \<and> (get_response http clock (format_url original_ip tcp_port) None w = Some (Inr r1, w1) \<longrightarrow>
        (status_code r1 \<noteq> status \<longrightarrow>
           compare_redeployed_response http clock original_ip redeployed_ip tcp_port status wait w =
             Some (Inl (AssertionError (Original_status status (status_code r1))),
                   print (''Response received from '' @ format_url original_ip tcp_port) w1))
      \<and> (status_code r1 = status \<longrightarrow>
           (get_response http clock (format_url redeployed_ip tcp_port) wait
               (print (''Response received from '' @ format_url original_ip tcp_port) w1) =
              Some (Inl e, w3) \<longrightarrow>
            compare_redeployed_response http clock original_ip redeployed_ip tcp_port status wait w =
              Some (Inl e, w3))
         \<and> (get_response http clock (format_url redeployed_ip tcp_port) wait
               (print (''Response received from '' @ format_url original_ip tcp_port) w1) =
              Some (Inr r2, w3) \<longrightarrow>
            compare_redeployed_response http clock original_ip redeployed_ip tcp_port status wait w =
              Some (if status_code r2 \<noteq> status_code r1 then
                      Inl (AssertionError (Redeployed_status (status_code r1) (status_code r2)))
                    else if text_body r2 \<noteq> text_body r1 then
                      Inl (AssertionError (Same_response (text_body r1) (text_body r2)))
                    else Inr (),
                    print (''Response received from '' @ format_url redeployed_ip tcp_port) w3))))"
  by (simp add: compare_redeployed_response_def Let_def)


theorem compare_redeployed_response_order_witness:
  "compare_redeployed_response http_two_hosts clock_seconds ''10.0.0.1'' ''10.0.0.1'' 80 200
       (Some 5) world_init =
     Some (Inr (),
           \<lparr>calls = [],
            stdout = [''Response received from http://10.0.0.1:80'',
                      ''Response received from http://10.0.0.1:80''],
            requests = [''http://10.0.0.1:80'', ''http://10.0.0.1:80''],
            ticks = 2\<rparr>)
   \<and> compare_redeployed_response http_two_hosts clock_seconds ''10.0.0.1'' ''10.0.0.2'' 80 200
       (Some 5) world_init =
     Some (Inl (AssertionError (Same_response ''hello'' ''bye'')),
           \<lparr>calls = [],
            stdout = [''Response received from http://10.0.0.1:80'',
                      ''Response received from http://10.0.0.2:80''],
            requests = [''http://10.0.0.1:80'', ''http://10.0.0.2:80''],
            ticks = 2\<rparr>)"
proof -
  let ?w1 = "\<lparr>calls = [], stdout = [], requests = [''http://10.0.0.1:80''], ticks = 1\<rparr>"
  let ?w2 = "print (''Response received from '' @ format_url ''10.0.0.1'' 80) ?w1"
  let ?w3 = "\<lparr>calls = [], stdout = [''Response received from http://10.0.0.1:80''],
      requests = [''http://10.0.0.1:80'', ''http://10.0.0.1:80''], ticks = 2\<rparr>"
  let ?w3' = "\<lparr>calls = [], stdout = [''Response received from http://10.0.0.1:80''],
      requests = [''http://10.0.0.1:80'', ''http://10.0.0.2:80''], ticks = 2\<rparr>"
  have original: "get_response http_two_hosts clock_seconds (format_url ''10.0.0.1'' 80) None
      world_init = Some (Inr example_response, ?w1)"
    by (simp add: get_response_def monotonic_def loop_answer http_two_hosts_def world_init_def
        format_url_def str_nat.simps)
  have same: "get_response http_two_hosts clock_seconds (format_url ''10.0.0.1'' 80) (Some 5) ?w2 =
      Some (Inr example_response, ?w3)"
    by (simp add: get_response_def monotonic_def loop_answer http_two_hosts_def print_def
        format_url_def str_nat.simps)
  have other: "get_response http_two_hosts clock_seconds (format_url ''10.0.0.2'' 80) (Some 5) ?w2 =
      Some (Inr (example_response\<lparr>text_body := ''bye''\<rparr>), ?w3')"
    by (simp add: get_response_def monotonic_def loop_answer http_two_hosts_def print_def
        format_url_def str_nat.simps)
  have status: "status_code example_response = 200"
    by (simp add: example_response_def)
  note succeeds = compare_redeployed_response_order
    [where http = http_two_hosts and clock = clock_seconds and original_ip = "''10.0.0.1''"
       and redeployed_ip = "''10.0.0.1''" and tcp_port = 80 and status = 200
       and wait = "Some 5" and w = world_init and ?r1.0 = example_response and ?w1.0 = ?w1
       and ?r2.0 = example_response and ?w3.0 = ?w3]
  note differs = compare_redeployed_response_order
    [where http = http_two_hosts and clock = clock_seconds and original_ip = "''10.0.0.1''"
       and redeployed_ip = "''10.0.0.2''" and tcp_port = 80 and status = 200
       and wait = "Some 5" and w = world_init and ?r1.0 = example_response and ?w1.0 = ?w1
       and ?r2.0 = "example_response\<lparr>text_body := ''bye''\<rparr>" and ?w3.0 = ?w3']
  from succeeds differs original same other status show ?thesis
    by (simp add: example_response_def print_def format_url_def str_nat.simps)
qed


end
